theory Spec2Isabelle
  imports Complex_Main "HOL-Library.Multiset" "HOL-Library.AList"
begin

section \<open>Errors and results\<close>

text \<open>
  Every exception the readers of \<^verbatim>\<open>PVGPpy/read/ubc.py\<close> can raise is a value.
  The first five constructors are the exceptions of Python and NumPy themselves, the last
  five are the \<^verbatim>\<open>raise Exception(...)\<close> statements of the module, one constructor per
  message:
  \<^item> \<open>MoreDataThanCells\<close>: "This model file has more data than the given mesh has cells to hold."
  \<^item> \<open>NotEnoughData\<close>: "This model file does not have enough data to fill the given mesh's cells."
  \<^item> \<open>ModelImproperlyFormatted\<close>: "Mode file `%s` improperly formatted."
  \<^item> \<open>SpacingMismatch i\<close>: "More spacings specifed than extent defined allows for dimension %d" with \<open>i\<close>
  \<^item> \<open>OcTreeNotCubic\<close>: "OcTree meshes must have the same number of cells in all directions."
\<close>

datatype error =
    IndexError
  | ValueError
  | ZeroDivisionError
  | OverflowError
  | AxisError
  | MoreDataThanCells
  | NotEnoughData
  | ModelImproperlyFormatted
  | SpacingMismatch nat
  | OcTreeNotCubic

text \<open>Sequencing of fallible steps: the first exception aborts the rest.\<close>

definition thn :: "error + 'a \<Rightarrow> ('a \<Rightarrow> error + 'b) \<Rightarrow> error + 'b" where
  "thn m f = (case m of Inl e \<Rightarrow> Inl e | Inr x \<Rightarrow> f x)"

section \<open>NumPy arrays as strided views\<close>

text \<open>
  An n-dimensional array is a buffer with a shape and one stride per axis, as NumPy holds
  it. \<^verbatim>\<open>np.reshape\<close> of a flat array lays C-order strides over the same buffer,
  \<^verbatim>\<open>np.swapaxes\<close> exchanges two entries of the shape and of the strides (a view, no
  copy), and \<^verbatim>\<open>flatten()\<close> copies the elements out in C order of the view's indices.
\<close>

record 'a ndarray =
  shape :: "nat list"
  strides :: "nat list"
  buf :: "'a list"

fun c_strides :: "nat list \<Rightarrow> nat list" where
  "c_strides [] = []"
| "c_strides (d # ds) = prod_list ds # c_strides ds"

text \<open>
  \<^verbatim>\<open>np.reshape(a, dims)\<close> for a flat \<open>a\<close>. A mismatch of sizes is a ValueError. A negative
  entry asks NumPy to infer that dimension; in \<open>placeModelOnMesh\<close> the call is reached only
  when the product of the three entries equals \<open>len(model)\<close>, and then an entry below zero
  means either a second negative entry or a zero one, and NumPy raises ValueError in both
  cases, which is what the first test returns.
\<close>

definition np_reshape :: "'a list \<Rightarrow> int list \<Rightarrow> error + 'a ndarray" where
  "np_reshape a dims =
     (if list_ex (\<lambda>d. d < 0) dims then Inl ValueError
      else if prod_list dims \<noteq> int (length a) then Inl ValueError
      else Inr \<lparr>shape = map nat dims, strides = c_strides (map nat dims), buf = a\<rparr>)"

definition swap_entries :: "nat \<Rightarrow> nat \<Rightarrow> 'b list \<Rightarrow> 'b list" where
  "swap_entries i j xs = xs[i := xs ! j, j := xs ! i]"

definition np_swapaxes :: "'a ndarray \<Rightarrow> nat \<Rightarrow> nat \<Rightarrow> error + 'a ndarray" where
  "np_swapaxes a i j =
     (if i < length (shape a) \<and> j < length (shape a)
      then Inr (a\<lparr>shape := swap_entries i j (shape a), strides := swap_entries i j (strides a)\<rparr>)
      else Inl AxisError)"

fun walk :: "nat list \<Rightarrow> nat list \<Rightarrow> nat \<Rightarrow> 'a list \<Rightarrow> 'a list" where
  "walk [] ss off b = [b ! off]"
| "walk (d # ds) ss off b =
     concat (map (\<lambda>i. walk ds (tl ss) (off + i * hd ss) b) [0..<d])"

definition np_flatten :: "'a ndarray \<Rightarrow> 'a list" where
  "np_flatten a = walk (shape a) (strides a) 0 (buf a)"

section \<open>The grid handed to the backend\<close>

text \<open>
  What the module reads and writes of a \<^verbatim>\<open>vtkRectilinearGrid\<close>: its extent, the three
  coordinate arrays and the cell arrays with their names. \<^verbatim>\<open>SetDimensions(a, b, c)\<close>
  sets the extent to \<open>(0, a - 1, 0, b - 1, 0, c - 1)\<close>; \<^verbatim>\<open>GetCellData().AddArray(c)\<close>
  stores the array under its name, in the place of an array of that name if there is one.
\<close>

record 'a rgrid =
  extent :: "int \<times> int \<times> int \<times> int \<times> int \<times> int"
  xcoords :: "'a list"
  ycoords :: "'a list"
  zcoords :: "'a list"
  celldata :: "(string \<times> 'a list) list"

definition empty_grid :: "'a rgrid" where
  "empty_grid = \<lparr>extent = (0, -1, 0, -1, 0, -1), xcoords = [], ycoords = [], zcoords = [],
     celldata = []\<rparr>"

definition SetDimensions :: "int \<Rightarrow> int \<Rightarrow> int \<Rightarrow> 'a rgrid \<Rightarrow> 'a rgrid" where
  "SetDimensions a b c g = g\<lparr>extent := (0, a - 1, 0, b - 1, 0, c - 1)\<rparr>"

definition AddArray :: "string \<Rightarrow> 'a list \<Rightarrow> 'a rgrid \<Rightarrow> 'a rgrid" where
  "AddArray nm c g = g\<lparr>celldata := AList.update nm c (celldata g)\<rparr>"

section \<open>placeModelOnMesh\<close>

text \<open>
  The model is a flat array of cell values, as the model readers return it. Lines 98 to
  101 of the source: reshape, swap axes 0 and 1, swap axes 0 and 2, flatten.
\<close>

definition swap_reorder :: "int \<Rightarrow> int \<Rightarrow> int \<Rightarrow> 'a list \<Rightarrow> error + 'a list" where
  "swap_reorder n1 n2 n3 model =
     thn (np_reshape model [n1, n2, n3]) (\<lambda>m1.
     thn (np_swapaxes m1 0 1) (\<lambda>m2.
     thn (np_swapaxes m2 0 2) (\<lambda>m3.
     Inr (np_flatten m3))))"

definition placeModelOnMesh :: "'a rgrid \<Rightarrow> 'a list \<Rightarrow> string \<Rightarrow> error + 'a rgrid" where
  "placeModelOnMesh mesh model dataNm =
     (case extent mesh of (e0, n1, e2, n2, e4, n3) \<Rightarrow>
        if n1 * n2 * n3 < int (length model) then Inl MoreDataThanCells
        else if n1 * n2 * n3 > int (length model) then Inl NotEnoughData
        else thn (swap_reorder n1 n2 n3 model) (\<lambda>c. Inr (AddArray dataNm c mesh)))"

subsection \<open>The transform in the specification's words\<close>

text \<open>
  A three-dimensional array as a shape and an element function. Reshape reads the flat
  array in C order (last axis fastest), swapping two axes exchanges the two indices, and
  flatten lists the elements in C order again.
\<close>

type_synonym 'a arr3 = "(nat \<times> nat \<times> nat) \<times> (nat \<Rightarrow> nat \<Rightarrow> nat \<Rightarrow> 'a)"

definition spec_reshape :: "nat \<Rightarrow> nat \<Rightarrow> nat \<Rightarrow> 'a list \<Rightarrow> 'a arr3" where
  "spec_reshape n1 n2 n3 m = ((n1, n2, n3), \<lambda>i j k. m ! ((i * n2 + j) * n3 + k))"

definition spec_swap01 :: "'a arr3 \<Rightarrow> 'a arr3" where
  "spec_swap01 A = (case A of ((a, b, c), f) \<Rightarrow> ((b, a, c), \<lambda>i j k. f j i k))"

definition spec_swap02 :: "'a arr3 \<Rightarrow> 'a arr3" where
  "spec_swap02 A = (case A of ((a, b, c), f) \<Rightarrow> ((c, b, a), \<lambda>i j k. f k j i))"

definition spec_flatten :: "'a arr3 \<Rightarrow> 'a list" where
  "spec_flatten A = (case A of ((a, b, c), f) \<Rightarrow>
     concat (map (\<lambda>i. concat (map (\<lambda>j. map (\<lambda>k. f i j k) [0..<c]) [0..<b])) [0..<a]))"

definition spec_transform :: "nat \<Rightarrow> nat \<Rightarrow> nat \<Rightarrow> 'a list \<Rightarrow> 'a list" where
  "spec_transform n1 n2 n3 m = spec_flatten (spec_swap02 (spec_swap01 (spec_reshape n1 n2 n3 m)))"

text \<open>The position in the file order that lands at position \<open>p\<close> of the grid order.\<close>

definition file_index :: "nat \<Rightarrow> nat \<Rightarrow> nat \<Rightarrow> nat \<Rightarrow> nat" where
  "file_index n1 n2 n3 p = (p mod (n1 * n2)) * n3 + p div (n1 * n2)"


text \<open>
  Its inverse: the position of the grid order that receives position \<open>q\<close> of the file
  order.
\<close>

definition grid_index :: "nat \<Rightarrow> nat \<Rightarrow> nat \<Rightarrow> nat \<Rightarrow> nat" where
  "grid_index n1 n2 n3 q = (q mod n3) * (n1 * n2) + q div n3"

text \<open>The transposition of an \<open>M\<close> by \<open>c\<close> matrix stored row after row.\<close>

definition transposed :: "nat \<Rightarrow> nat \<Rightarrow> 'a list \<Rightarrow> 'a list" where
  "transposed M c m = concat (map (\<lambda>k. map (\<lambda>r. m ! (r * c + k)) [0..<M]) [0..<c])"

section \<open>Python strings and lists\<close>

text \<open>
  \<^verbatim>\<open>s.split()\<close> cuts at runs of whitespace and returns no empty piece;
  \<^verbatim>\<open>s.split(sep)\<close> cuts at every separator and returns at least one piece.
\<close>

definition is_space :: "char \<Rightarrow> bool" where
  "is_space c = (c \<in> set [CHR '' '', CHR 0x09, CHR 0x0A, CHR 0x0B, CHR 0x0C, CHR 0x0D,
                            CHR 0x1C, CHR 0x1D, CHR 0x1E, CHR 0x1F])"

fun split_ws :: "string \<Rightarrow> string \<Rightarrow> string list" where
  "split_ws w [] = (if w = [] then [] else [w])"
| "split_ws w (c # cs) =
     (if is_space c then (if w = [] then split_ws [] cs else w # split_ws [] cs)
      else split_ws (w @ [c]) cs)"

definition py_split :: "string \<Rightarrow> string list" where
  "py_split s = split_ws [] s"

fun split_sep :: "char \<Rightarrow> string \<Rightarrow> string \<Rightarrow> string list" where
  "split_sep sep w [] = [w]"
| "split_sep sep w (c # cs) =
     (if c = sep then w # split_sep sep [] cs else split_sep sep (w @ [c]) cs)"

definition split_on :: "char \<Rightarrow> string \<Rightarrow> string list" where
  "split_on sep s = split_sep sep [] s"

text \<open>\<^verbatim>\<open>line.split('!')[0]\<close>: the text before the first comment marker.\<close>

definition before_comment :: "string \<Rightarrow> string" where
  "before_comment s = hd (split_on CHR ''!'' s)"

text \<open>\<^verbatim>\<open>line.split('!')[0].split()\<close>\<close>

definition tokens :: "string \<Rightarrow> string list" where
  "tokens s = py_split (before_comment s)"

text \<open>
  \<^verbatim>\<open>xs[i]\<close>: an index below zero counts from the end, and an index outside the list
  is an IndexError.
\<close>

definition py_get :: "'b list \<Rightarrow> int \<Rightarrow> error + 'b" where
  "py_get xs i =
     (if 0 \<le> i \<and> i < int (length xs) then Inr (xs ! nat i)
      else if i < 0 \<and> - int (length xs) \<le> i then Inr (xs ! nat (i + int (length xs)))
      else Inl IndexError)"

text \<open>\<^verbatim>\<open>del xs[i]\<close> and \<^verbatim>\<open>xs.insert(i, x)\<close> for \<open>i \<ge> 0\<close>; insert past the end appends.\<close>

definition py_del :: "nat \<Rightarrow> 'b list \<Rightarrow> error + 'b list" where
  "py_del i xs = (if i < length xs then Inr (take i xs @ drop (Suc i) xs) else Inl IndexError)"

definition py_insert :: "nat \<Rightarrow> 'b \<Rightarrow> 'b list \<Rightarrow> 'b list" where
  "py_insert i x xs = take i xs @ x # drop i xs"

text \<open>A loop body that may raise, run over a list from left to right.\<close>

fun map_res :: "('b \<Rightarrow> error + 'c) \<Rightarrow> 'b list \<Rightarrow> error + 'c list" where
  "map_res f [] = Inr []"
| "map_res f (x # xs) = thn (f x) (\<lambda>y. thn (map_res f xs) (\<lambda>ys. Inr (y # ys)))"

section \<open>Numbers\<close>

text \<open>
  The conversions between text and numbers are parameters of the model, so that every
  statement below holds for whatever Python and NumPy accept:
  \<^item> \<open>py_int\<close> is \<^verbatim>\<open>int(s)\<close>, also used for the elements of
    \<^verbatim>\<open>np.array(tokens, dtype=int)\<close>; \<open>None\<close> is a ValueError;
  \<^item> \<open>py_float\<close> is \<^verbatim>\<open>float(s)\<close>, also used for the elements of
    \<^verbatim>\<open>np.array(tokens, dtype=float)\<close>;
  \<^item> \<open>int_to_float\<close> converts an integer operand of a mixed expression;
  \<^item> \<open>loose_float\<close> and \<open>loose_int\<close> are the converters of \<^verbatim>\<open>np.genfromtxt\<close>, which
    put a filling value where a token does not convert.
  The float type is the type parameter \<open>'a\<close>; the readers use its \<open>0\<close>, \<open>+\<close>, \<open>-\<close>,
  \<open>*\<close> and \<open>/\<close> and no law of arithmetic.
\<close>

record 'a conv =
  py_int :: "string \<Rightarrow> int option"
  py_float :: "string \<Rightarrow> 'a option"
  int_to_float :: "int \<Rightarrow> 'a"
  loose_float :: "string \<Rightarrow> 'a"
  loose_int :: "string \<Rightarrow> int"

text \<open>NumPy's default integer is 64 bits wide: arithmetic on it wraps around.\<close>

definition wrap64 :: "int \<Rightarrow> int" where
  "wrap64 x = (x + 2 ^ 63) mod 2 ^ 64 - 2 ^ 63"

definition in_int64 :: "int \<Rightarrow> bool" where
  "in_int64 x = (- (2 ^ 63) \<le> x \<and> x < 2 ^ 63)"

definition np_int :: "'a conv \<Rightarrow> string \<Rightarrow> error + int" where
  "np_int cv s =
     (case py_int cv s of
        None \<Rightarrow> Inl ValueError
      | Some v \<Rightarrow> if in_int64 v then Inr v else Inl OverflowError)"

text \<open>\<^verbatim>\<open>np.array(toks, dtype=int)\<close> and \<^verbatim>\<open>np.array(toks, dtype=float)\<close>\<close>

definition np_int_array :: "'a conv \<Rightarrow> string list \<Rightarrow> error + int list" where
  "np_int_array cv toks = map_res (np_int cv) toks"

definition to_float :: "'a conv \<Rightarrow> string \<Rightarrow> error + 'a" where
  "to_float cv s = (case py_float cv s of None \<Rightarrow> Inl ValueError | Some v \<Rightarrow> Inr v)"

definition to_int :: "'a conv \<Rightarrow> string \<Rightarrow> error + int" where
  "to_int cv s = (case py_int cv s of None \<Rightarrow> Inl ValueError | Some v \<Rightarrow> Inr v)"

definition np_float_array :: "'a conv \<Rightarrow> string list \<Rightarrow> error + 'a list" where
  "np_float_array cv toks = map_res (to_float cv) toks"


definition np_zeros :: "int \<Rightarrow> error + ('a::zero) list" where
  "np_zeros n = (if n < 0 then Inl ValueError else Inr (replicate (nat n) 0))"


section \<open>ubcExtent3D\<close>



section \<open>ubcMesh3D\<close>

subsection \<open>The decoder of repeated spacings (lines 328 to 341)\<close>

text \<open>
  The first loop records, for every token that holds a star, its index and the list of
  \<open>num\<close> copies of the width; \<open>j\<close> counts the tokens already seen.
\<close>

fun scan_runs ::
  "'a conv \<Rightarrow> string list \<Rightarrow> nat \<Rightarrow> nat list \<Rightarrow> string list list \<Rightarrow>
   error + (nat list \<times> string list list)" where
  "scan_runs cv [] j ins_idx ins_spac = Inr (ins_idx, ins_spac)"
| "scan_runs cv (tok # toks) j ins_idx ins_spac =
     (if CHR ''*'' \<in> set tok then
        (let parsed = split_on CHR ''*'' tok in
         thn (py_get parsed 0) (\<lambda>p0.
         thn (to_int cv p0) (\<lambda>num.
         thn (py_get parsed 1) (\<lambda>dist.
         scan_runs cv toks (Suc j) (ins_idx @ [j]) (ins_spac @ [replicate (nat num) dist])))))
      else scan_runs cv toks (Suc j) ins_idx ins_spac)"

text \<open>The inner loop of the second loop: \<^verbatim>\<open>spac_str.insert(ins_idx[j]+k, ins_spac[j][k])\<close>\<close>

fun insert_from :: "nat \<Rightarrow> 'b list \<Rightarrow> 'b list \<Rightarrow> 'b list" where
  "insert_from p [] spac_str = spac_str"
| "insert_from p (x # xs) spac_str = insert_from (Suc p) xs (py_insert p x spac_str)"

text \<open>
  The second loop: for every recorded index, in order, delete the element at that index
  of the current list and insert the copies there. The recorded indices are those of the
  list as it was read.
\<close>

fun insert_runs :: "nat list \<Rightarrow> 'b list list \<Rightarrow> 'b list \<Rightarrow> error + 'b list" where
  "insert_runs [] ins_spac spac_str = Inr spac_str"
| "insert_runs (idx # ins_idx) [] spac_str = Inl IndexError"
| "insert_runs (idx # ins_idx) (ins # ins_spac) spac_str =
     thn (py_del idx spac_str) (\<lambda>s. insert_runs ins_idx ins_spac (insert_from idx ins s))"

definition expand_spacings :: "'a conv \<Rightarrow> string list \<Rightarrow> error + string list" where
  "expand_spacings cv spac_str =
     thn (scan_runs cv spac_str 0 [] []) (\<lambda>(ins_idx, ins_spac).
     insert_runs ins_idx ins_spac spac_str)"

subsection \<open>The decoder in the specification's words\<close>

text \<open>
  Every token with a star is replaced, where it stands, by \<open>count\<close> copies of its width;
  the other tokens stay.
\<close>

fun decode_spec :: "'a conv \<Rightarrow> string list \<Rightarrow> error + string list" where
  "decode_spec cv [] = Inr []"
| "decode_spec cv (tok # toks) =
     (if CHR ''*'' \<in> set tok then
        (let parsed = split_on CHR ''*'' tok in
         thn (py_get parsed 0) (\<lambda>p0.
         thn (to_int cv p0) (\<lambda>num.
         thn (py_get parsed 1) (\<lambda>width.
         thn (decode_spec cv toks) (\<lambda>r. Inr (replicate (nat num) width @ r))))))
      else thn (decode_spec cv toks) (\<lambda>r. Inr (tok # r)))"

text \<open>A list of tokens without a star.\<close>

definition plain :: "string list \<Rightarrow> bool" where
  "plain toks = list_all (\<lambda>tok. CHR ''*'' \<notin> set tok) toks"

subsection \<open>One pass of the loop over the three axes (lines 323 to 359)\<close>

text \<open>\<^verbatim>\<open>for j in range(1, dim[i]): s[j] = s[j-1] + spac[j-1]\<close>, where \<open>s\<close> has \<open>dim[i]\<close> elements\<close>

definition accumulate :: "nat \<Rightarrow> 'a list \<Rightarrow> ('a::plus) list \<Rightarrow> 'a list" where
  "accumulate i spac s =
     fold (\<lambda>j s. if i = 2 then s[j := s ! (j - 1) + spac ! (j - 1)]
                  else s[j := s ! (j - 1) + spac ! (j - 1)]) [1..<length s] s"

text \<open>Lines 325 to 343: the spacings of axis \<open>i\<close>, expanded and converted.\<close>

definition axis_spacings :: "'a conv \<Rightarrow> string list \<Rightarrow> nat \<Rightarrow> error + 'a list" where
  "axis_spacings cv fileLines i =
     thn (py_get fileLines (int i + 2)) (\<lambda>ln.
     thn (expand_spacings cv (tokens ln)) (\<lambda>spac_str.
     np_float_array cv spac_str))"

text \<open>Lines 344 to 359: the check of their number, and the coordinates of axis \<open>i\<close>.\<close>

definition axis_coords ::
  "('a::{zero,plus}) conv \<Rightarrow> string list \<Rightarrow> int list \<Rightarrow> 'a list \<Rightarrow> nat \<Rightarrow> error + 'a list" where
  "axis_coords cv fileLines dims oo i =
     thn (axis_spacings cv fileLines i) (\<lambda>spac.
     thn (py_get dims (int i)) (\<lambda>di.
     if int (length spac) \<noteq> wrap64 (di - 1) then Inl (SpacingMismatch i)
     else
       thn (np_zeros di) (\<lambda>s.
       thn (py_get oo (int i)) (\<lambda>orig.
       if s = [] then Inl IndexError
       else Inr (accumulate i spac (s[0 := orig]))))))"

subsection \<open>The reader\<close>

definition SetXCoordinates :: "'a list \<Rightarrow> 'a rgrid \<Rightarrow> 'a rgrid" where
  "SetXCoordinates v g = g\<lparr>xcoords := v\<rparr>"

definition SetYCoordinates :: "'a list \<Rightarrow> 'a rgrid \<Rightarrow> 'a rgrid" where
  "SetYCoordinates v g = g\<lparr>ycoords := v\<rparr>"

definition SetZCoordinates :: "'a list \<Rightarrow> 'a rgrid \<Rightarrow> 'a rgrid" where
  "SetZCoordinates v g = g\<lparr>zcoords := v\<rparr>"

text \<open>Lines 304 to 319: the node counts and the origin.\<close>

definition ubcMesh3D_header :: "'a conv \<Rightarrow> string list \<Rightarrow> error + (int list \<times> 'a list)" where
  "ubcMesh3D_header cv fileLines =
     thn (py_get fileLines 0) (\<lambda>l0.
     thn (np_int_array cv (tokens l0)) (\<lambda>dim0.
     thn (py_get dim0 0) (\<lambda>d0.
     thn (py_get dim0 1) (\<lambda>d1.
     thn (py_get dim0 2) (\<lambda>d2.
     let dims = [wrap64 (d0 + 1), wrap64 (d1 + 1), wrap64 (d2 + 1)] in
     thn (py_get fileLines 1) (\<lambda>l1.
     thn (np_float_array cv (tokens l1)) (\<lambda>oo.
     thn (py_get oo 0) (\<lambda>oe.
     thn (py_get oo 1) (\<lambda>on.
     thn (py_get oo 2) (\<lambda>oz.
     Inr (dims, oo)))))))))))"

definition ubcMesh3D ::
  "('a::{zero,plus}) conv \<Rightarrow> string list \<Rightarrow> 'a rgrid \<Rightarrow> error + 'a rgrid" where
  "ubcMesh3D cv fileLines pdo =
     thn (ubcMesh3D_header cv fileLines) (\<lambda>(dims, oo).
     thn (axis_coords cv fileLines dims oo 0) (\<lambda>v0.
     thn (axis_coords cv fileLines dims oo 1) (\<lambda>v1.
     thn (axis_coords cv fileLines dims oo 2) (\<lambda>v2.
     Inr (SetZCoordinates v2 (SetYCoordinates v1 (SetXCoordinates v0
            (SetDimensions (dims ! 0) (dims ! 1) (dims ! 2) pdo))))))))"



section \<open>The 2D mesh\<close>










section \<open>ubcModel2D\<close>







section \<open>ubcOcTree\<close>



section \<open>Sample conversions\<close>

text \<open>
  Plain decimal notation, for running the readers on concrete files: an optional sign and
  digits for an integer, and an optional fraction after a point for a float, read as an
  exact real number. The filling value of the loose converters is \<open>0\<close> and \<open>- 1\<close>.
\<close>

definition digit_of :: "char \<Rightarrow> nat option" where
  "digit_of c =
     (if 48 \<le> (of_char c :: nat) \<and> (of_char c :: nat) \<le> 57
      then Some (of_char c - 48) else None)"

fun dec_digits :: "nat \<Rightarrow> string \<Rightarrow> nat option" where
  "dec_digits acc [] = Some acc"
| "dec_digits acc (c # cs) =
     (case digit_of c of None \<Rightarrow> None | Some d \<Rightarrow> dec_digits (10 * acc + d) cs)"

definition dec_nat :: "string \<Rightarrow> nat option" where
  "dec_nat s = (if s = [] then None else dec_digits 0 s)"

definition strip :: "string \<Rightarrow> string" where
  "strip s = rev (dropWhile is_space (rev (dropWhile is_space s)))"

definition dec_int :: "string \<Rightarrow> int option" where
  "dec_int s0 =
     (case strip s0 of
        [] \<Rightarrow> None
      | c # r \<Rightarrow>
          if c = CHR ''-'' then map_option (\<lambda>n. - int n) (dec_nat r)
          else if c = CHR ''+'' then map_option int (dec_nat r)
          else map_option int (dec_nat (c # r)))"

definition dec_unsigned :: "string \<Rightarrow> real option" where
  "dec_unsigned s =
     (case split_on CHR ''.'' s of
        [ip] \<Rightarrow> map_option real (dec_nat ip)
      | [ip, fp] \<Rightarrow>
          if ip = [] \<and> fp = [] then None
          else (case (dec_digits 0 ip, dec_digits 0 fp) of
                  (Some a, Some b) \<Rightarrow> Some (real a + real b / 10 ^ length fp)
                | _ \<Rightarrow> None)
      | _ \<Rightarrow> None)"

definition dec_float :: "string \<Rightarrow> real option" where
  "dec_float s0 =
     (case strip s0 of
        [] \<Rightarrow> None
      | c # r \<Rightarrow>
          if c = CHR ''-'' then map_option uminus (dec_unsigned r)
          else if c = CHR ''+'' then dec_unsigned r
          else dec_unsigned (c # r))"

definition dec_conv :: "real conv" where
  "dec_conv = \<lparr>py_int = dec_int, py_float = dec_float, int_to_float = real_of_int,
     loose_float = (\<lambda>s. case dec_float s of None \<Rightarrow> 0 | Some v \<Rightarrow> v),
     loose_int = (\<lambda>s. case dec_int s of None \<Rightarrow> - 1 | Some v \<Rightarrow> v)\<rparr>"
section \<open>Properties of placeModelOnMesh\<close>

subsection \<open>Nested loops over index ranges\<close>

lemma length_concat_map_const:
  "(\<And>x. x \<in> set xs \<Longrightarrow> length (f x) = m) \<Longrightarrow> length (concat (map f xs)) = length xs * m"
  by (induction xs) auto

lemma nth_concat_map_const:
  "(\<And>x. x \<in> set xs \<Longrightarrow> length (f x) = m) \<Longrightarrow> a < length xs \<Longrightarrow> b < m \<Longrightarrow>
   concat (map f xs) ! (a * m + b) = f (xs ! a) ! b"
proof (induction xs arbitrary: a)
  case Nil
  then show ?case by simp
next
  case (Cons x xs)
  show ?case
  proof (cases a)
    case 0
    with Cons.prems show ?thesis by (simp add: nth_append)
  next
    case (Suc a')
    have "concat (map f (x # xs)) ! (a * m + b) = concat (map f xs) ! (a' * m + b)"
      using Cons.prems Suc by (simp add: nth_append)
    also have "\<dots> = f (xs ! a') ! b"
      using Cons.prems Suc by (intro Cons.IH) auto
    finally show ?thesis using Suc by simp
  qed
qed

subsection \<open>The strided views compute the transform of the specification\<close>

lemma swap_reorder_walk:
  assumes "0 \<le> n1" "0 \<le> n2" "0 \<le> n3" "int (length m) = n1 * n2 * n3"
  shows "swap_reorder n1 n2 n3 m =
     Inr (walk [nat n3, nat n1, nat n2] [1, nat n2 * nat n3, nat n3] 0 m)"
  using assms
  by (simp add: swap_reorder_def np_reshape_def np_swapaxes_def thn_def swap_entries_def
      np_flatten_def)

lemma walk3_spec:
  "walk [c, a, b] [1, b * c, c] 0 m = spec_transform a b c m"
  by (simp add: spec_transform_def spec_flatten_def spec_swap01_def spec_swap02_def
      spec_reshape_def algebra_simps concat_map_singleton)

lemma map_rows_flat:
  "concat (map (\<lambda>i. map (\<lambda>j. g (i * b + j)) [0..<b]) [0..<a]) = map g [0..<a * b]"
proof (induction a)
  case 0
  then show ?case by simp
next
  case (Suc a)
  have "[0..<a * b + b] = [0..<a * b] @ [a * b..<a * b + b]"
    by (rule upt_add_eq_append) simp
  moreover have "[a * b..<a * b + b] = map (\<lambda>j. a * b + j) [0..<b]"
    by (rule nth_equalityI) auto
  moreover have "Suc a * b = a * b + b" by simp
  ultimately have "map g [0..<Suc a * b] = map g [0..<a * b] @ map (\<lambda>j. g (a * b + j)) [0..<b]"
    by (simp only: map_append map_map comp_def)
  then show ?case using Suc by simp
qed

lemma spec_transform_transposed:
  "spec_transform n1 n2 n3 m = transposed (n1 * n2) n3 m"
proof -
  have "concat (map (\<lambda>i. map (\<lambda>j. m ! ((i * n2 + j) * n3 + k)) [0..<n2]) [0..<n1])
       = map (\<lambda>r. m ! (r * n3 + k)) [0..<n1 * n2]" for k
    using map_rows_flat [of "\<lambda>r. m ! (r * n3 + k)" n2 n1] by simp
  then show ?thesis
    by (simp add: spec_transform_def spec_flatten_def spec_swap01_def spec_swap02_def
        spec_reshape_def transposed_def)
qed

lemma length_transposed: "length (transposed M c m) = c * M"
  unfolding transposed_def by (subst length_concat_map_const [where m = M]) auto

lemma nth_transposed:
  assumes "p < M * c"
  shows "transposed M c m ! p = m ! ((p mod M) * c + p div M)"
proof -
  have M: "0 < M" using assms by (cases M) auto
  have d: "p div M < c" using assms M by (simp add: less_mult_imp_div_less mult.commute)
  have r: "p mod M < M" using M by simp
  have "transposed M c m ! (p div M * M + p mod M)
      = map (\<lambda>r. m ! (r * c + ([0..<c] ! (p div M)))) [0..<M] ! (p mod M)"
    unfolding transposed_def using d r
    by (subst nth_concat_map_const [where m = M]) auto
  then show ?thesis using d r by simp
qed

lemma length_spec_transform: "length (spec_transform n1 n2 n3 m) = n1 * n2 * n3"
  by (simp add: spec_transform_transposed length_transposed)

lemma spec_transform_file_index:
  "p < n1 * n2 * n3 \<Longrightarrow> spec_transform n1 n2 n3 m ! p = m ! file_index n1 n2 n3 p"
  by (simp add: spec_transform_transposed nth_transposed file_index_def)

lemma file_index_less:
  assumes "p < n1 * n2 * n3"
  shows "file_index n1 n2 n3 p < n1 * n2 * n3"
proof -
  define M where "M = n1 * n2"
  have p: "p < M * n3" using assms by (simp add: M_def)
  have M: "0 < M" using p by (cases M) auto
  have d: "p div M < n3" using p M by (simp add: less_mult_imp_div_less mult.commute)
  have r: "p mod M < M" using M by simp
  have "(p mod M) * n3 + p div M < (p mod M) * n3 + n3" using d by simp
  also have "\<dots> = Suc (p mod M) * n3" by simp
  also have "\<dots> \<le> M * n3" using r by (intro mult_le_mono1) simp
  finally show ?thesis by (simp add: file_index_def M_def)
qed

lemma grid_index_less:
  assumes "q < n1 * n2 * n3"
  shows "grid_index n1 n2 n3 q < n1 * n2 * n3"
proof -
  define M where "M = n1 * n2"
  have q: "q < M * n3" using assms by (simp add: M_def)
  have c: "0 < n3" using q by (cases n3) auto
  have d: "q div n3 < M" using q c by (simp add: less_mult_imp_div_less)
  have r: "q mod n3 < n3" using c by simp
  have "(q mod n3) * M + q div n3 < (q mod n3) * M + M" using d by simp
  also have "\<dots> = Suc (q mod n3) * M" by simp
  also have "\<dots> \<le> n3 * M" using r by (intro mult_le_mono1) simp
  finally show ?thesis by (simp add: grid_index_def M_def mult.commute)
qed

lemma grid_file_index:
  assumes "p < n1 * n2 * n3"
  shows "grid_index n1 n2 n3 (file_index n1 n2 n3 p) = p"
proof -
  define M where "M = n1 * n2"
  have p: "p < M * n3" using assms by (simp add: M_def)
  have M: "0 < M" using p by (cases M) auto
  have d: "p div M < n3" using p M by (simp add: less_mult_imp_div_less mult.commute)
  have "((p mod M) * n3 + p div M) mod n3 = p div M" using d by simp
  moreover have "((p mod M) * n3 + p div M) div n3 = p mod M" using d by simp
  ultimately show ?thesis by (simp add: grid_index_def file_index_def M_def [symmetric])
qed

lemma file_grid_index:
  assumes "q < n1 * n2 * n3"
  shows "file_index n1 n2 n3 (grid_index n1 n2 n3 q) = q"
proof -
  define M where "M = n1 * n2"
  have q: "q < M * n3" using assms by (simp add: M_def)
  have c: "0 < n3" using q by (cases n3) auto
  have d: "q div n3 < M" using q c by (simp add: less_mult_imp_div_less)
  have "((q mod n3) * M + q div n3) mod M = q div n3" using d by simp
  moreover have "((q mod n3) * M + q div n3) div M = q mod n3" using d by simp
  ultimately show ?thesis by (simp add: grid_index_def file_index_def M_def [symmetric])
qed

lemma file_index_bij:
  "bij_betw (file_index n1 n2 n3) {..<n1 * n2 * n3} {..<n1 * n2 * n3}"
  by (rule bij_betw_byWitness [where f' = "grid_index n1 n2 n3"])
     (auto simp: grid_file_index file_grid_index file_index_less grid_index_less)

lemma spec_transform_nth:
  assumes "i < n1" "j < n2" "k < n3"
  shows "spec_transform n1 n2 n3 m ! ((k * n1 + i) * n2 + j) = m ! ((i * n2 + j) * n3 + k)"
proof -
  define M where "M = n1 * n2"
  define r where "r = i * n2 + j"
  have "r < i * n2 + n2" using assms by (simp add: r_def)
  also have "\<dots> = Suc i * n2" by simp
  also have "\<dots> \<le> n1 * n2" using assms by (intro mult_le_mono1) simp
  finally have r: "r < M" by (simp add: M_def)
  have e: "(k * n1 + i) * n2 + j = k * M + r" by (simp add: M_def r_def algebra_simps)
  have "k * M + r < k * M + M" using r by simp
  also have "\<dots> = Suc k * M" by simp
  also have "\<dots> \<le> n3 * M" using assms by (intro mult_le_mono1) simp
  finally have p: "k * M + r < n1 * n2 * n3" by (simp add: M_def mult.commute)
  have "file_index n1 n2 n3 (k * M + r) = r * n3 + k"
    using r by (simp add: file_index_def M_def [symmetric])
  then have "spec_transform n1 n2 n3 m ! (k * M + r) = m ! (r * n3 + k)"
    using spec_transform_file_index [OF p, of m] by simp
  then show ?thesis unfolding e r_def .
qed

lemma swap_reorder_spec:
  assumes "0 \<le> n1" "0 \<le> n2" "0 \<le> n3" "int (length m) = n1 * n2 * n3"
  shows "swap_reorder n1 n2 n3 m = Inr (spec_transform (nat n1) (nat n2) (nat n3) m)"
  using swap_reorder_walk [OF assms] walk3_spec [of "nat n3" "nat n1" "nat n2" m]
  by (simp add: mult.commute)

lemma nat_prod3:
  assumes "0 \<le> n1" "0 \<le> n2" "0 \<le> n3" "int N = n1 * n2 * n3"
  shows "nat n1 * nat n2 * nat n3 = N"
proof -
  have "int (nat n1 * nat n2 * nat n3) = int N" using assms by simp
  then show ?thesis by (simp only: of_nat_eq_iff)
qed

lemma spec_transform_as_map:
  "spec_transform n1 n2 n3 m = map (\<lambda>p. m ! file_index n1 n2 n3 p) [0..<n1 * n2 * n3]"
  by (rule nth_equalityI) (simp_all add: length_spec_transform spec_transform_file_index)

lemma mset_spec_transform:
  assumes "length m = n1 * n2 * n3"
  shows "mset (spec_transform n1 n2 n3 m) = mset m"
proof -
  let ?N = "n1 * n2 * n3"
  let ?f = "file_index n1 n2 n3"
  have img: "?f ` {0..<?N} = {0..<?N}" and inj: "inj_on ?f {0..<?N}"
    using file_index_bij [of n1 n2 n3] by (auto simp: bij_betw_def atLeast0LessThan)
  have "mset (map ?f [0..<?N]) = image_mset ?f (mset_set {0..<?N})"
    by (simp only: mset_map mset_upt)
  also have "\<dots> = mset_set {0..<?N}"
    using image_mset_mset_set [OF inj] img by simp
  finally have idx: "mset (map ?f [0..<?N]) = mset [0..<?N]" by simp
  have "spec_transform n1 n2 n3 m = map ((!) m) (map ?f [0..<?N])"
    by (simp add: spec_transform_as_map comp_def)
  then have "mset (spec_transform n1 n2 n3 m) = image_mset ((!) m) (mset (map ?f [0..<?N]))"
    by (simp only: mset_map)
  also have "\<dots> = mset (map ((!) m) [0..<?N])"
    unfolding idx by (simp only: mset_map)
  also have "map ((!) m) [0..<?N] = m" using assms map_nth [of m] by simp
  finally show ?thesis .
qed

lemma index_decompose:
  assumes "p < n1 * n2 * (n3::nat)"
  obtains i j k where "i < n1" "j < n2" "k < n3" "p = (i * n2 + j) * n3 + k"
proof -
  have c: "0 < n3" using assms by (cases n3) auto
  have b: "0 < n2" using assms by (cases n2) auto
  have q: "p div n3 < n1 * n2" using assms c by (simp add: less_mult_imp_div_less)
  have i: "p div n3 div n2 < n1" using q b by (simp add: less_mult_imp_div_less)
  have j: "p div n3 mod n2 < n2" using b by simp
  have k: "p mod n3 < n3" using c by simp
  have "p = (p div n3 div n2 * n2 + p div n3 mod n2) * n3 + p mod n3" by simp
  then show ?thesis using that i j k by blast
qed

lemma spec_transform_thrice:
  assumes "length m = n1 * n2 * n3"
  shows "spec_transform n2 n3 n1 (spec_transform n3 n1 n2 (spec_transform n1 n2 n3 m)) = m"
proof (rule nth_equalityI)
  show "length (spec_transform n2 n3 n1 (spec_transform n3 n1 n2 (spec_transform n1 n2 n3 m)))
      = length m"
    using assms by (simp add: length_spec_transform mult.commute mult.left_commute)
next
  fix p
  assume "p < length (spec_transform n2 n3 n1 (spec_transform n3 n1 n2 (spec_transform n1 n2 n3 m)))"
  then have "p < n1 * n2 * n3"
    by (simp add: length_spec_transform mult.commute mult.left_commute)
  then obtain i j k where ijk: "i < n1" "j < n2" "k < n3" and p: "p = (i * n2 + j) * n3 + k"
    by (rule index_decompose)
  have "spec_transform n2 n3 n1 (spec_transform n3 n1 n2 (spec_transform n1 n2 n3 m)) ! p
      = spec_transform n3 n1 n2 (spec_transform n1 n2 n3 m) ! ((j * n3 + k) * n1 + i)"
    unfolding p using ijk by (intro spec_transform_nth)
  also have "\<dots> = spec_transform n1 n2 n3 m ! ((k * n1 + i) * n2 + j)"
    using ijk by (intro spec_transform_nth)
  also have "\<dots> = m ! ((i * n2 + j) * n3 + k)"
    using ijk by (intro spec_transform_nth)
  finally show "spec_transform n2 n3 n1 (spec_transform n3 n1 n2 (spec_transform n1 n2 n3 m)) ! p
      = m ! p"
    unfolding p .
qed

lemma spec_transform_back:
  assumes "length m = n1 * n2 * n3"
  shows "spec_transform n3 1 (n1 * n2) (spec_transform n1 n2 n3 m) = m"
proof (rule nth_equalityI)
  show "length (spec_transform n3 1 (n1 * n2) (spec_transform n1 n2 n3 m)) = length m"
    using assms by (simp add: length_spec_transform mult.commute mult.left_commute)
next
  fix p
  assume "p < length (spec_transform n3 1 (n1 * n2) (spec_transform n1 n2 n3 m))"
  then have pN: "p < n1 * n2 * n3"
    by (simp add: length_spec_transform mult.commute mult.left_commute)
  then have pN': "p < n3 * 1 * (n1 * n2)" by (simp add: mult.commute)
  have q: "file_index n3 1 (n1 * n2) p = grid_index n1 n2 n3 p"
    by (simp add: file_index_def grid_index_def)
  have "spec_transform n3 1 (n1 * n2) (spec_transform n1 n2 n3 m) ! p
      = spec_transform n1 n2 n3 m ! grid_index n1 n2 n3 p"
    using spec_transform_file_index [OF pN'] q by simp
  also have "\<dots> = m ! file_index n1 n2 n3 (grid_index n1 n2 n3 p)"
    using grid_index_less [OF pN] by (rule spec_transform_file_index)
  also have "\<dots> = m ! p" using file_grid_index [OF pN] by simp
  finally show "spec_transform n3 1 (n1 * n2) (spec_transform n1 n2 n3 m) ! p = m ! p" .
qed

subsection \<open>The claims about placeModelOnMesh\<close>

text \<open>
  Claim C1. For cell counts \<open>(n1, n2, n3)\<close> read from the extent of the mesh and a model
  array of length \<open>n1 * n2 * n3\<close>, \<open>placeModelOnMesh\<close> returns the mesh with one cell
  array attached under the given name, and that array is the input reshaped to
  \<open>(n1, n2, n3)\<close> in C order, with axes 0 and 1 swapped, then axes 0 and 2 swapped, then
  flattened.
\<close>

theorem placeModelOnMesh_transform:
  assumes "extent mesh = (e0, n1, e2, n2, e4, n3)"
    and "0 \<le> n1" and "0 \<le> n2" and "0 \<le> n3"
    and "int (length model) = n1 * n2 * n3"
  shows "placeModelOnMesh mesh model dataNm =
     Inr (mesh\<lparr>celldata :=
            AList.update dataNm (spec_transform (nat n1) (nat n2) (nat n3) model) (celldata mesh)\<rparr>)"
  using assms swap_reorder_spec [of n1 n2 n3 model]
  by (simp add: placeModelOnMesh_def thn_def AddArray_def)

theorem placeModelOnMesh_transform_witness:
  "placeModelOnMesh (SetDimensions 2 3 4 empty_grid) [0, 1, 2, 3, 4, 5 :: int] ''Data'' =
     Inr ((SetDimensions 2 3 4 empty_grid)\<lparr>celldata := [(''Data'', [0, 3, 1, 4, 2, 5])]\<rparr>)"
proof -
  have e: "extent (SetDimensions 2 3 4 (empty_grid :: int rgrid)) = (0, 1, 0, 2, 0, 3)"
    by (simp add: SetDimensions_def)
  have t: "spec_transform (nat 1) (nat 2) (nat 3) [0, 1, 2, 3, 4, 5 :: int] = [0, 3, 1, 4, 2, 5]"
    by (simp add: spec_transform_def spec_flatten_def spec_swap01_def spec_swap02_def
        spec_reshape_def upt_rec)
  have c: "celldata (SetDimensions 2 3 4 (empty_grid :: int rgrid)) = []"
    by (simp add: SetDimensions_def empty_grid_def)
  show ?thesis
    using placeModelOnMesh_transform [OF e, of "[0, 1, 2, 3, 4, 5]" "''Data''"] t c by simp
qed

text \<open>
  Claim C4. With \<open>(n1, n2, n3)\<close> read from the extent of the mesh, \<open>placeModelOnMesh\<close>
  raises the exception for more data than cells exactly when the model array is longer
  than \<open>n1 * n2 * n3\<close> and the exception for not enough data exactly when it is shorter,
  so that it raises whenever the length differs from the product. When the lengths agree
  (the three numbers being cell counts, none below zero) it raises nothing, and the
  attached array has the length and the elements of the model array: nothing is cut off
  and nothing is filled in.
\<close>

theorem placeModelOnMesh_size_check:
  assumes "extent mesh = (e0, n1, e2, n2, e4, n3)"
  shows "(placeModelOnMesh mesh model dataNm = Inl MoreDataThanCells
            \<longleftrightarrow> n1 * n2 * n3 < int (length model))
       \<and> (placeModelOnMesh mesh model dataNm = Inl NotEnoughData
            \<longleftrightarrow> int (length model) < n1 * n2 * n3)
       \<and> (int (length model) \<noteq> n1 * n2 * n3
            \<longrightarrow> (\<exists>e. placeModelOnMesh mesh model dataNm = Inl e))
       \<and> (0 \<le> n1 \<and> 0 \<le> n2 \<and> 0 \<le> n3 \<and> int (length model) = n1 * n2 * n3
            \<longrightarrow> (\<exists>c. placeModelOnMesh mesh model dataNm
                  = Inr (mesh\<lparr>celldata := AList.update dataNm c (celldata mesh)\<rparr>)
               \<and> length c = length model \<and> mset c = mset model))"
proof -
  have errs: "swap_reorder n1 n2 n3 model \<noteq> Inl MoreDataThanCells"
    "swap_reorder n1 n2 n3 model \<noteq> Inl NotEnoughData"
    by (auto simp: swap_reorder_def np_reshape_def np_swapaxes_def thn_def
        split: if_splits sum.splits)
  have a: "placeModelOnMesh mesh model dataNm = Inl MoreDataThanCells
            \<longleftrightarrow> n1 * n2 * n3 < int (length model)"
    using assms errs by (auto simp: placeModelOnMesh_def thn_def split: sum.splits)
  have b: "placeModelOnMesh mesh model dataNm = Inl NotEnoughData
            \<longleftrightarrow> int (length model) < n1 * n2 * n3"
    using assms errs by (auto simp: placeModelOnMesh_def thn_def split: sum.splits)
  have c: "\<exists>e. placeModelOnMesh mesh model dataNm = Inl e"
    if "int (length model) \<noteq> n1 * n2 * n3"
    using assms that by (auto simp: placeModelOnMesh_def)
  have d: "\<exists>c. placeModelOnMesh mesh model dataNm
                  = Inr (mesh\<lparr>celldata := AList.update dataNm c (celldata mesh)\<rparr>)
               \<and> length c = length model \<and> mset c = mset model"
    if nn: "0 \<le> n1" "0 \<le> n2" "0 \<le> n3" and eq: "int (length model) = n1 * n2 * n3"
  proof -
    have N: "length model = nat n1 * nat n2 * nat n3"
      using nat_prod3 [OF nn eq] by simp
    have "placeModelOnMesh mesh model dataNm =
       Inr (mesh\<lparr>celldata :=
              AList.update dataNm (spec_transform (nat n1) (nat n2) (nat n3) model) (celldata mesh)\<rparr>)"
      using assms eq swap_reorder_spec [OF nn eq]
      by (simp add: placeModelOnMesh_def thn_def AddArray_def)
    moreover have "length (spec_transform (nat n1) (nat n2) (nat n3) model) = length model"
      using N by (simp add: length_spec_transform)
    moreover have "mset (spec_transform (nat n1) (nat n2) (nat n3) model) = mset model"
      using N by (rule mset_spec_transform)
    ultimately show ?thesis by blast
  qed
  show ?thesis using a b c d by blast
qed

theorem placeModelOnMesh_size_check_witness:
  "placeModelOnMesh (SetDimensions 2 3 4 empty_grid) [0, 1, 2, 3, 4, 5, 6 :: int] ''Data''
      = Inl MoreDataThanCells
   \<and> placeModelOnMesh (SetDimensions 2 3 4 empty_grid) [0, 1, 2, 3, 4 :: int] ''Data''
      = Inl NotEnoughData
   \<and> (\<exists>c. placeModelOnMesh (SetDimensions 2 3 4 empty_grid) [0, 1, 2, 3, 4, 5 :: int] ''Data''
         = Inr ((SetDimensions 2 3 4 empty_grid)\<lparr>celldata := [(''Data'', c)]\<rparr>)
        \<and> length c = 6 \<and> mset c = mset [0, 1, 2, 3, 4, 5])"
proof -
  have e: "extent (SetDimensions 2 3 4 (empty_grid :: int rgrid)) = (0, 1, 0, 2, 0, 3)"
    by (simp add: SetDimensions_def)
  have c: "celldata (SetDimensions 2 3 4 (empty_grid :: int rgrid)) = []"
    by (simp add: SetDimensions_def empty_grid_def)
  show ?thesis
    using placeModelOnMesh_size_check [OF e, of "[0, 1, 2, 3, 4, 5, 6]" "''Data''"]
      placeModelOnMesh_size_check [OF e, of "[0, 1, 2, 3, 4]" "''Data''"]
      placeModelOnMesh_size_check [OF e, of "[0, 1, 2, 3, 4, 5]" "''Data''"] c
    by (simp add: eval_nat_numeral)
qed

text \<open>
  Claim C2, as stated, fails: for the cube \<open>(2, 2, 2)\<close> the reordered array has the shape
  \<open>(2, 2, 2)\<close> again, and the same two swaps applied to it with these reshape dimensions
  do not give the original order back.
\<close>

theorem swap_reorder_twice_counterexample:
  "swap_reorder 2 2 2 [0, 1, 2, 3, 4, 5, 6, 7 :: int] = Inr [0, 2, 4, 6, 1, 3, 5, 7]
   \<and> swap_reorder 2 2 2 [0, 2, 4, 6, 1, 3, 5, 7 :: int] = Inr [0, 4, 1, 5, 2, 6, 3, 7]
   \<and> [0, 4, 1, 5, 2, 6, 3, 7] \<noteq> [0, 1, 2, 3, 4, 5, 6, 7 :: int]"
  by (simp add: swap_reorder_def np_reshape_def np_swapaxes_def thn_def swap_entries_def
      np_flatten_def upt_rec)

text \<open>
  Claim C2, amended. For cell counts \<open>(n1, n2, n3)\<close> and a model array of length
  \<open>n1 * n2 * n3\<close>, the reordering of \<open>placeModelOnMesh\<close> is a permutation of the
  positions: position \<open>p\<close> of the result holds the element at position
  \<open>file_index n1 n2 n3 p\<close> of the input, and \<open>file_index n1 n2 n3\<close> is a bijection on
  the positions below \<open>n1 * n2 * n3\<close>. The same two swaps give the original order back
  when they are applied once more with the reshape dimensions \<open>(n3, 1, n1 * n2)\<close>, and
  when they are applied twice more with the shape of the array at hand, \<open>(n3, n1, n2)\<close>
  and then \<open>(n2, n3, n1)\<close>.
\<close>

theorem swap_reorder_bijection:
  assumes "extent mesh = (e0, n1, e2, n2, e4, n3)"
    and "0 \<le> n1" and "0 \<le> n2" and "0 \<le> n3"
    and "int (length model) = n1 * n2 * n3"
  shows "\<exists>out. placeModelOnMesh mesh model dataNm = Inr (AddArray dataNm out mesh)
       \<and> swap_reorder n1 n2 n3 model = Inr out
       \<and> length out = length model
       \<and> bij_betw (file_index (nat n1) (nat n2) (nat n3)) {..<length model} {..<length model}
       \<and> (\<forall>p<length model. out ! p = model ! file_index (nat n1) (nat n2) (nat n3) p)
       \<and> swap_reorder n3 1 (n1 * n2) out = Inr model
       \<and> thn (swap_reorder n3 n1 n2 out) (swap_reorder n2 n3 n1) = Inr model"
proof -
  let ?a = "nat n1" and ?b = "nat n2" and ?c = "nat n3"
  let ?out = "spec_transform ?a ?b ?c model"
  have N: "length model = ?a * ?b * ?c"
    using nat_prod3 [OF assms(2-5)] by simp
  have r1: "swap_reorder n1 n2 n3 model = Inr ?out"
    using assms by (intro swap_reorder_spec)
  have p: "placeModelOnMesh mesh model dataNm = Inr (AddArray dataNm ?out mesh)"
    using assms r1 by (simp add: placeModelOnMesh_def thn_def)
  have l: "length ?out = length model" using N by (simp add: length_spec_transform)
  have b: "bij_betw (file_index ?a ?b ?c) {..<length model} {..<length model}"
    unfolding N by (rule file_index_bij)
  have i: "\<forall>p<length model. ?out ! p = model ! file_index ?a ?b ?c p"
    unfolding N by (simp add: spec_transform_file_index)
  have lo: "int (length ?out) = n3 * 1 * (n1 * n2)"
    using l assms(5) by (simp add: mult.commute)
  have "swap_reorder n3 1 (n1 * n2) ?out = Inr (spec_transform ?c (nat 1) (nat (n1 * n2)) ?out)"
    using assms(2-4) lo by (intro swap_reorder_spec) simp_all
  then have inv: "swap_reorder n3 1 (n1 * n2) ?out = Inr model"
    using spec_transform_back [OF N] assms(2-4) by (simp add: nat_mult_distrib)
  have lo2: "int (length ?out) = n3 * n1 * n2"
    using l assms(5) by (simp add: mult.commute mult.left_commute)
  have r2: "swap_reorder n3 n1 n2 ?out = Inr (spec_transform ?c ?a ?b ?out)"
    using assms(2-4) lo2 by (intro swap_reorder_spec)
  have lo3: "int (length (spec_transform ?c ?a ?b ?out)) = n2 * n3 * n1"
    using assms(2-5) by (simp add: length_spec_transform mult.commute mult.left_commute)
  have r3: "swap_reorder n2 n3 n1 (spec_transform ?c ?a ?b ?out)
      = Inr (spec_transform ?b ?c ?a (spec_transform ?c ?a ?b ?out))"
    using assms(2-4) lo3 by (intro swap_reorder_spec)
  have thrice: "thn (swap_reorder n3 n1 n2 ?out) (swap_reorder n2 n3 n1) = Inr model"
    using r2 r3 spec_transform_thrice [OF N] by (simp add: thn_def)
  show ?thesis using p r1 l b i inv thrice by blast
qed

theorem swap_reorder_bijection_witness:
  "\<exists>out. placeModelOnMesh (SetDimensions 3 3 3 empty_grid) [0, 1, 2, 3, 4, 5, 6, 7 :: int] ''Data''
          = Inr (AddArray ''Data'' out (SetDimensions 3 3 3 empty_grid))
       \<and> swap_reorder 2 2 2 [0, 1, 2, 3, 4, 5, 6, 7 :: int] = Inr out
       \<and> out = [0, 2, 4, 6, 1, 3, 5, 7]
       \<and> swap_reorder 2 1 4 out = Inr [0, 1, 2, 3, 4, 5, 6, 7]
       \<and> thn (swap_reorder 2 2 2 out) (swap_reorder 2 2 2) = Inr [0, 1, 2, 3, 4, 5, 6, 7]"
proof -
  have e: "extent (SetDimensions 3 3 3 (empty_grid :: int rgrid)) = (0, 2, 0, 2, 0, 2)"
    by (simp add: SetDimensions_def)
  have v: "swap_reorder 2 2 2 [0, 1, 2, 3, 4, 5, 6, 7 :: int] = Inr [0, 2, 4, 6, 1, 3, 5, 7]"
    by (simp add: swap_reorder_def np_reshape_def np_swapaxes_def thn_def swap_entries_def
        np_flatten_def upt_rec)
  show ?thesis
    using swap_reorder_bijection [OF e, of "[0, 1, 2, 3, 4, 5, 6, 7]" "''Data''"] v
    by auto
qed

text \<open>
  The reordering by positions: the cell value that the file holds for the indices
  \<open>(i, j, k)\<close>, with \<open>k\<close> running fastest, is attached at the position where \<open>j\<close> runs
  fastest, then \<open>i\<close>, then \<open>k\<close>.
\<close>

theorem placeModelOnMesh_index:
  assumes "extent mesh = (e0, n1, e2, n2, e4, n3)"
    and "0 \<le> n1" and "0 \<le> n2" and "0 \<le> n3"
    and "int (length model) = n1 * n2 * n3"
    and "i < nat n1" and "j < nat n2" and "k < nat n3"
  shows "\<exists>c. placeModelOnMesh mesh model dataNm = Inr (AddArray dataNm c mesh)
       \<and> length c = length model
       \<and> c ! ((k * nat n1 + i) * nat n2 + j) = model ! ((i * nat n2 + j) * nat n3 + k)"
proof -
  let ?c = "spec_transform (nat n1) (nat n2) (nat n3) model"
  have N: "length model = nat n1 * nat n2 * nat n3"
    using nat_prod3 [OF assms(2-5)] by simp
  have "placeModelOnMesh mesh model dataNm = Inr (AddArray dataNm ?c mesh)"
    using assms(1,5) swap_reorder_spec [OF assms(2-5)]
    by (simp add: placeModelOnMesh_def thn_def)
  moreover have "length ?c = length model"
    using N by (simp add: length_spec_transform)
  moreover have "?c ! ((k * nat n1 + i) * nat n2 + j) = model ! ((i * nat n2 + j) * nat n3 + k)"
    using assms(6-8) by (rule spec_transform_nth)
  ultimately show ?thesis by blast
qed

theorem placeModelOnMesh_index_witness:
  "\<exists>c. placeModelOnMesh (SetDimensions 2 3 4 empty_grid) [10, 11, 12, 13, 14, 15 :: int] ''Data''
         = Inr (AddArray ''Data'' c (SetDimensions 2 3 4 empty_grid))
       \<and> length c = 6 \<and> c ! 3 = 14"
proof -
  have e: "extent (SetDimensions 2 3 4 (empty_grid :: int rgrid)) = (0, 1, 0, 2, 0, 3)"
    by (simp add: SetDimensions_def)
  show ?thesis
    using placeModelOnMesh_index [OF e, of "[10, 11, 12, 13, 14, 15]" 0 1 1 "''Data''"]
    by (simp add: eval_nat_numeral)
qed

section \<open>Properties of ubcMesh3D\<close>

subsection \<open>Results, integers of 64 bits and lists\<close>

lemma thn_Inr [simp]: "thn (Inr x) f = f x"
  by (simp add: thn_def)

lemma thn_Inl [simp]: "thn (Inl e) f = Inl e"
  by (simp add: thn_def)










subsection \<open>The decoder of repeated spacings\<close>

lemma scan_runs_plain:
  "plain pre \<Longrightarrow> scan_runs cv (pre @ toks) j ii isp = scan_runs cv toks (j + length pre) ii isp"
  by (induction pre arbitrary: j) (simp_all add: plain_def)

lemma decode_spec_plain: "plain toks \<Longrightarrow> decode_spec cv toks = Inr toks"
  by (induction toks) (simp_all add: plain_def)

lemma insert_from_splice:
  "p \<le> length s \<Longrightarrow> insert_from p ins s = take p s @ ins @ drop p s"
proof (induction ins arbitrary: p s)
  case Nil
  then show ?case by simp
next
  case (Cons x xs)
  let ?s = "py_insert p x s"
  have l: "Suc p \<le> length ?s" using Cons.prems by (simp add: py_insert_def)
  have t: "take (Suc p) ?s = take p s @ [x]" using Cons.prems by (simp add: py_insert_def)
  have d: "drop (Suc p) ?s = drop p s" using Cons.prems by (simp add: py_insert_def)
  show ?case using Cons.IH [OF l] t d by simp
qed

lemma expand_spacings_plain:
  assumes "plain toks"
  shows "expand_spacings cv toks = Inr toks"
  using scan_runs_plain [OF assms, of cv "[]" 0 "[]" "[]"]
  by (simp add: expand_spacings_def)

text \<open>
  A line with exactly one compressed token is expanded in place, as the specification
  says: the decoder of the source and the decoder in the specification's words agree.
\<close>

theorem expand_spacings_one_run:
  assumes pre: "plain pre" and post: "plain post"
    and star: "CHR ''*'' \<in> set tok"
    and p0: "py_get (split_on CHR ''*'' tok) 0 = Inr p0" and num: "to_int cv p0 = Inr num"
    and p1: "py_get (split_on CHR ''*'' tok) 1 = Inr width"
  shows "expand_spacings cv (pre @ tok # post) = Inr (pre @ replicate (nat num) width @ post)
       \<and> decode_spec cv (pre @ tok # post) = expand_spacings cv (pre @ tok # post)"
proof -
  have "scan_runs cv (pre @ tok # post) 0 [] []
      = scan_runs cv (tok # post) (length pre) [] []"
    using scan_runs_plain [OF pre, of cv "tok # post" 0 "[]" "[]"] by simp
  also have "\<dots> = scan_runs cv (post @ []) (Suc (length pre)) [length pre] [replicate (nat num) width]"
    using star p0 num p1 by (simp add: Let_def)
  also have "\<dots> = Inr ([length pre], [replicate (nat num) width])"
    using scan_runs_plain [OF post, of cv "[]"] by simp
  finally have s: "scan_runs cv (pre @ tok # post) 0 [] []
      = Inr ([length pre], [replicate (nat num) width])" .
  have d: "py_del (length pre) (pre @ tok # post) = Inr (pre @ post)"
    by (simp add: py_del_def)
  have i: "insert_from (length pre) (replicate (nat num) width) (pre @ post)
      = pre @ replicate (nat num) width @ post"
    by (subst insert_from_splice) simp_all
  have e: "expand_spacings cv (pre @ tok # post) = Inr (pre @ replicate (nat num) width @ post)"
    using s d i by (simp add: expand_spacings_def)
  have "decode_spec cv (pre @ rest) = thn (decode_spec cv rest) (\<lambda>r. Inr (pre @ r))" for rest
    using pre by (induction pre) (simp_all add: plain_def thn_def split: sum.splits)
  then have "decode_spec cv (pre @ tok # post) = Inr (pre @ replicate (nat num) width @ post)"
    using star p0 num p1 decode_spec_plain [OF post, of cv] by (simp add: Let_def)
  then show ?thesis using e by simp
qed

theorem expand_spacings_one_run_witness:
  "expand_spacings dec_conv [''5.0'', ''3*2.0'', ''4.0''] = Inr [''5.0'', ''2.0'', ''2.0'', ''2.0'', ''4.0'']
   \<and> decode_spec dec_conv [''5.0'', ''3*2.0'', ''4.0'']
       = expand_spacings dec_conv [''5.0'', ''3*2.0'', ''4.0'']"
proof -
  have p: "plain [''5.0'']" "plain [''4.0'']" by (simp_all add: plain_def)
  have s: "CHR ''*'' \<in> set ''3*2.0''" by simp
  have g: "py_get (split_on CHR ''*'' ''3*2.0'') 0 = Inr ''3''"
    "py_get (split_on CHR ''*'' ''3*2.0'') 1 = Inr ''2.0''"
    by code_simp+
  have n: "to_int dec_conv ''3'' = Inr 3" by code_simp
  show ?thesis
    using expand_spacings_one_run [OF p s g(1) n g(2)] by (simp add: eval_nat_numeral)
qed

text \<open>
  Claim C3 does not hold of the code. The second loop of the decoder deletes and inserts
  at the indices recorded for the line as it was read, so after a first run of more than
  one cell the index of a second run points into the copies of the first: for the line
  \<open>2*1.0 3*2.0\<close> it deletes one of the two copies of \<open>1.0\<close>, leaves the token
  \<open>3*2.0\<close> in the list, and the conversion to floats raises ValueError.
\<close>

theorem expand_spacings_two_runs:
  "decode_spec dec_conv (tokens ''2*1.0 3*2.0'')
     = Inr [''1.0'', ''1.0'', ''2.0'', ''2.0'', ''2.0'']
   \<and> expand_spacings dec_conv (tokens ''2*1.0 3*2.0'')
     = Inr [''1.0'', ''2.0'', ''2.0'', ''2.0'', ''3*2.0'']
   \<and> axis_spacings dec_conv [''5 1 1'', ''0 0 0'', ''2*1.0 3*2.0'', ''1.0'', ''1.0''] 0
     = Inl ValueError
   \<and> ubcMesh3D dec_conv [''5 1 1'', ''0 0 0'', ''2*1.0 3*2.0'', ''1.0'', ''1.0''] empty_grid
     = Inl ValueError"
  by code_simp

subsection \<open>The loop that accumulates the coordinates\<close>








subsection \<open>The exceptions of one pass over an axis\<close>







subsection \<open>The reader\<close>










section \<open>Properties of ubcOcTree\<close>








section \<open>Properties of ubcModel2D\<close>









section \<open>Properties of the 2D mesh readers\<close>

















end
